theory Spec2Isabelle
  imports Main "HOL-Library.Sublist" "HOL-Library.AList" "HOL-Library.Word"
begin

section \<open>Strings and arrays of the host language\<close>

text \<open>
  A string of the host language is the list of its 16-bit code units. A string literal of
  the source, which is in the ASCII range throughout, is written \<open>str ''...''\<close>.
\<close>

type_synonym codeUnit = "16 word"

type_synonym jsString = "codeUnit list"

definition str :: "string \<Rightarrow> jsString" where
  "str s = map (\<lambda>c. of_nat (of_char c)) s"

text \<open>
  \<^verbatim>\<open>String.prototype.toLowerCase\<close> follows the case mappings of Unicode: it changes letters
  far beyond the ASCII range and it can change the length of a string. Every function below
  that calls it takes the lower-casing function as its first argument \<open>lower\<close>, and every
  general statement is about every such function, so about the host's.

  For concrete runs, \<open>toLowerCase\<close> is the host's function on the strings whose code
  units are all below U+0100 or U+0130 (\<open>modelled\<close>): there it works code unit by code
  unit, sends A to Z and the capital letters U+00C0 to U+00DE of Latin-1 (U+00D7, the
  multiplication sign, is not one) to the code unit 32 higher, sends U+0130, the capital I
  with a dot above, to the two code units U+0069 U+0307, and keeps every other code unit.
\<close>

definition lowerUnit :: "codeUnit \<Rightarrow> jsString" where
  "lowerUnit u =
     (if (0x41 \<le> u \<and> u \<le> 0x5A) \<or> (0xC0 \<le> u \<and> u \<le> 0xDE \<and> u \<noteq> 0xD7) then [u + 0x20]
      else if u = 0x130 then [0x69, 0x307]
      else [u])"

definition toLowerCase :: "jsString \<Rightarrow> jsString" where
  "toLowerCase s = concat (map lowerUnit s)"

definition modelled :: "jsString \<Rightarrow> bool" where
  "modelled s = list_all (\<lambda>u. u < 0x100 \<or> u = 0x130) s"

text \<open>
  \<^verbatim>\<open>hay.indexOf(needle)\<close>: the least position at which \<open>needle\<close> starts in \<open>hay\<close>,
  or \<open>-1\<close>. The empty needle is found at position 0, also in the empty string.
\<close>

fun indexOf :: "'a list \<Rightarrow> 'a list \<Rightarrow> int" where
  "indexOf [] needle = (if needle = [] then 0 else - 1)"
| "indexOf (h # hs) needle =
     (if prefix needle (h # hs) then 0
      else (let r = indexOf hs needle in if r = - 1 then - 1 else r + 1))"

text \<open>\<^verbatim>\<open>hay.includes(needle)\<close> on strings: the same search, as a truth value.\<close>

definition includesStr :: "'a list \<Rightarrow> 'a list \<Rightarrow> bool" where
  "includesStr hay needle = (indexOf hay needle \<noteq> - 1)"

text \<open>
  \<^verbatim>\<open>xs.slice(start, end)\<close>, for arrays and strings alike: a negative bound counts from
  the end, both bounds are clamped to the length, and an empty range gives the empty list.
\<close>

definition slice :: "'a list \<Rightarrow> int \<Rightarrow> int \<Rightarrow> 'a list" where
  "slice xs start end =
     (let len = int (length xs);
          k = (if start < 0 then max (len + start) 0 else min start len);
          final = (if end < 0 then max (len + end) 0 else min end len)
      in take (nat (final - k)) (drop (nat k) xs))"

text \<open>\<^verbatim>\<open>xs.join(sep)\<close> and \<^verbatim>\<open>s.split('\n')\<close>; the line feed is the code unit 10.\<close>

fun join :: "jsString \<Rightarrow> jsString list \<Rightarrow> jsString" where
  "join sep [] = []"
| "join sep [x] = x"
| "join sep (x # y # ys) = x @ sep @ join sep (y # ys)"

fun split :: "jsString \<Rightarrow> jsString list" where
  "split [] = [[]]"
| "split (c # cs) =
     (if c = 0x0A then [] # split cs
      else (case split cs of [] \<Rightarrow> [[c]] | l # ls \<Rightarrow> (c # l) # ls))"

section \<open>The document store (docStore.ts, types.ts)\<close>

record DocEntry =
  doc_id :: jsString
  title :: jsString
  description :: jsString
  content :: jsString
  category :: jsString
  tags :: "jsString list"
  lastUpdated :: nat
  version :: "jsString option"

record SearchOptions =
  query :: jsString
  opt_category :: "jsString option"
  opt_tags :: "jsString list option"
  limit :: "int option"

record SearchResult =
  doc :: DocEntry
  score :: int
  excerpt :: jsString

text \<open>
  The field \<^verbatim>\<open>id\<close> of an entry is \<open>doc_id\<close> here, and the fields \<^verbatim>\<open>category\<close> and
  \<^verbatim>\<open>tags\<close> of the search options are \<open>opt_category\<close> and \<open>opt_tags\<close>; an optional
  field is an \<open>option\<close>. The limit is any integer.

  The store's \<^verbatim>\<open>Map<string, DocEntry>\<close> keeps its entries in insertion order, and
  setting a key that is present replaces the value where it stands: an association list
  with \<open>AList.update\<close>. \<open>lastUpdated\<close> is a time stamp in clock ticks.
\<close>

type_synonym DocumentationStore = "(jsString \<times> DocEntry) list"

definition getAllDocs :: "DocumentationStore \<Rightarrow> DocEntry list" where
  "getAllDocs docs = map snd docs"

definition getDocById :: "DocumentationStore \<Rightarrow> jsString \<Rightarrow> DocEntry option" where
  "getDocById docs i = map_of docs i"

text \<open>
  \<^verbatim>\<open>addDoc\<close> overwrites the entry's \<open>lastUpdated\<close> with the clock reading \<open>now\<close> that
  \<^verbatim>\<open>new Date()\<close> gives during the call, then stores it under its id.
\<close>

definition addDoc :: "nat \<Rightarrow> DocumentationStore \<Rightarrow> DocEntry \<Rightarrow> DocumentationStore" where
  "addDoc now docs d = AList.update (doc_id d) (d\<lparr>lastUpdated := now\<rparr>) docs"

definition deleteDoc :: "DocumentationStore \<Rightarrow> jsString \<Rightarrow> bool \<times> DocumentationStore" where
  "deleteDoc docs i = (map_of docs i \<noteq> None, AList.delete i docs)"

subsection \<open>Search\<close>

text \<open>The relevance score of one document, accumulated as the source does.\<close>

definition computeScore :: "(jsString \<Rightarrow> jsString) \<Rightarrow> jsString \<Rightarrow> DocEntry \<Rightarrow> int" where
  "computeScore lower queryLower d =
     (let score0 = 0;
          score1 = (if includesStr (lower (title d)) queryLower then score0 + 10 else score0);
          score2 = (if includesStr (lower (description d)) queryLower then score1 + 5 else score1);
          score3 = (if includesStr (lower (content d)) queryLower then score2 + 2 else score2);
          score4 = (if list_ex (\<lambda>tag. includesStr (lower tag) queryLower) (tags d)
                    then score3 + 3 else score3)
      in score4)"

text \<open>
  The excerpt: the position of the query is searched in the lower-cased content, and the
  slice is taken from the content itself.
\<close>

definition createExcerpt :: "(jsString \<Rightarrow> jsString) \<Rightarrow> jsString \<Rightarrow> DocEntry \<Rightarrow> jsString" where
  "createExcerpt lower queryLower d =
     (let contentLower = lower (content d);
          queryIndex = indexOf contentLower queryLower
      in if queryIndex \<noteq> - 1
         then (let start = max 0 (queryIndex - 50);
                   end = min (int (length (content d))) (queryIndex + 150)
               in str ''...'' @ slice (content d) start end @ str ''...'')
         else description d)"

text \<open>
  The two filters of the \<^verbatim>\<open>forEach\<close> callback. An absent or empty category does not
  filter (both are falsy), and neither does an absent or empty array of tags; a tag of the
  query matches a tag of the document when the two are equal.
\<close>

definition categoryExcludes :: "SearchOptions \<Rightarrow> DocEntry \<Rightarrow> bool" where
  "categoryExcludes options d =
     (case opt_category options of None \<Rightarrow> False | Some c \<Rightarrow> c \<noteq> [] \<and> category d \<noteq> c)"

definition tagsExclude :: "SearchOptions \<Rightarrow> DocEntry \<Rightarrow> bool" where
  "tagsExclude options d =
     (case opt_tags options of None \<Rightarrow> False
      | Some ts \<Rightarrow> length ts > 0 \<and> \<not> list_ex (\<lambda>tag. List.member (tags d) tag) ts)"

text \<open>
  The body of the callback: each filter returns early, and a positive score pushes a
  result onto \<open>results\<close>.
\<close>

definition visit ::
  "(jsString \<Rightarrow> jsString) \<Rightarrow> SearchOptions \<Rightarrow> SearchResult list \<Rightarrow> DocEntry \<Rightarrow> SearchResult list" where
  "visit lower options results d =
     (if categoryExcludes options d then results
      else if tagsExclude options d then results
      else (let queryLower = lower (query options);
                s = computeScore lower queryLower d
            in if s > 0
               then results @ [\<lparr>doc = d, score = s, excerpt = createExcerpt lower queryLower d\<rparr>]
               else results))"

text \<open>
  \<^verbatim>\<open>limit = 10\<close> in the destructuring applies when the field is absent only. The sort is
  the host's stable sort with the comparator \<^verbatim>\<open>b.score - a.score\<close>.
\<close>

definition collectResults ::
  "(jsString \<Rightarrow> jsString) \<Rightarrow> DocumentationStore \<Rightarrow> SearchOptions \<Rightarrow> SearchResult list" where
  "collectResults lower docs options = foldl (visit lower options) [] (map snd docs)"

definition search ::
  "(jsString \<Rightarrow> jsString) \<Rightarrow> DocumentationStore \<Rightarrow> SearchOptions \<Rightarrow> SearchResult list" where
  "search lower docs options =
     (let lim = (case limit options of None \<Rightarrow> 10 | Some l \<Rightarrow> l);
          results = collectResults lower docs options
      in slice (sort_key (\<lambda>r. - score r) results) 0 lim)"

section \<open>The library documentation fetcher (webFetcher.ts)\<close>

subsection \<open>The source registry\<close>

text \<open>
  \<^verbatim>\<open>DOC_SOURCES\<close> is an object literal used as a dictionary: its own properties are the
  registered names, and a read \<^verbatim>\<open>DOC_SOURCES[k]\<close> of a name that is not an own property
  goes on to the object's prototype. So a read gives a registered URL, a property inherited
  from \<^verbatim>\<open>Object.prototype\<close> (a function, or the prototype object for \<^verbatim>\<open>__proto__\<close>), or
  \<^verbatim>\<open>undefined\<close>. Own properties are kept as an association list.
\<close>

datatype jsvalue = JUndefined | JString jsString | JInherited jsString

definition objectPrototypeKeys :: "jsString list" where
  "objectPrototypeKeys =
     map str
       [''constructor'', ''__defineGetter__'', ''__defineSetter__'', ''hasOwnProperty'',
        ''__lookupGetter__'', ''__lookupSetter__'', ''isPrototypeOf'', ''propertyIsEnumerable'',
        ''toString'', ''valueOf'', ''__proto__'', ''toLocaleString'']"

definition getProperty :: "(jsString \<times> jsString) list \<Rightarrow> jsString \<Rightarrow> jsvalue" where
  "getProperty obj k =
     (case map_of obj k of
        Some v \<Rightarrow> JString v
      | None \<Rightarrow> if List.member objectPrototypeKeys k then JInherited k else JUndefined)"

text \<open>What \<^verbatim>\<open>!docUrl\<close> tests, and the string a value becomes in a template or as a URL.\<close>

fun truthy :: "jsvalue \<Rightarrow> bool" where
  "truthy JUndefined = False"
| "truthy (JString s) = (s \<noteq> [])"
| "truthy (JInherited k) = True"

fun toStr :: "jsvalue \<Rightarrow> jsString" where
  "toStr JUndefined = str ''undefined''"
| "toStr (JString s) = s"
| "toStr (JInherited k) =
     (if k = str ''__proto__'' then str ''[object Object]''
      else str ''function '' @ (if k = str ''constructor'' then str ''Object'' else k) @
           str ''() { [native code] }'')"

definition DOC_SOURCES :: "(jsString \<times> jsString) list" where
  "DOC_SOURCES =
     [(str ''langgraph'', str ''https://langchain-ai.github.io/langgraph/''),
      (str ''langchain'', str ''https://python.langchain.com/docs/introduction/''),
      (str ''react'', str ''https://react.dev/learn''),
      (str ''nextjs'', str ''https://nextjs.org/docs''),
      (str ''vue'', str ''https://vuejs.org/guide/introduction.html''),
      (str ''fastapi'', str ''https://fastapi.tiangolo.com/''),
      (str ''django'', str ''https://docs.djangoproject.com/en/stable/''),
      (str ''express'', str ''https://expressjs.com/en/guide/routing.html''),
      (str ''pytorch'', str ''https://pytorch.org/docs/stable/index.html''),
      (str ''tensorflow'', str ''https://www.tensorflow.org/guide''),
      (str ''pandas'', str ''https://pandas.pydata.org/docs/''),
      (str ''numpy'', str ''https://numpy.org/doc/stable/''),
      (str ''crewai'', str ''https://docs.crewai.com/'')]"

text \<open>
  The normalization of a library name, \<^verbatim>\<open>library.toLowerCase().replace(/[^a-z0-9]/g, '')\<close>,
  and the read of the registry at the normalized name: the first two statements of
  \<^verbatim>\<open>searchLibraryDocs\<close>, which the specification calls \<open>resolve\<close>.
\<close>

definition isLowerAlnum :: "codeUnit \<Rightarrow> bool" where
  "isLowerAlnum u = ((0x61 \<le> u \<and> u \<le> 0x7A) \<or> (0x30 \<le> u \<and> u \<le> 0x39))"

definition normalizeName :: "(jsString \<Rightarrow> jsString) \<Rightarrow> jsString \<Rightarrow> jsString" where
  "normalizeName lower library = filter isLowerAlnum (lower library)"

definition resolve ::
  "(jsString \<Rightarrow> jsString) \<Rightarrow> (jsString \<times> jsString) list \<Rightarrow> jsString \<Rightarrow> jsvalue" where
  "resolve lower sources library = getProperty sources (normalizeName lower library)"

definition addDocSource ::
  "(jsString \<Rightarrow> jsString) \<Rightarrow> (jsString \<times> jsString) list \<Rightarrow> jsString \<Rightarrow> jsString
     \<Rightarrow> (jsString \<times> jsString) list" where
  "addDocSource lower sources library u = AList.update (normalizeName lower library) u sources"

subsection \<open>Fetching and filtering\<close>

text \<open>
  A failure is an \<^verbatim>\<open>Error\<close> with its message. The fields of a result carry the prefix
  \<open>result_\<close>. The four guessed URLs and the message of the failure for an unknown library
  are built as the source builds them.
\<close>

datatype error = Error jsString

record LibraryDocResult =
  result_library :: jsString
  result_source :: jsvalue
  result_content :: jsString
  result_url :: jsvalue

definition possibleUrls :: "jsString \<Rightarrow> jsString list" where
  "possibleUrls libraryLower =
     [str ''https://'' @ libraryLower @ str ''.readthedocs.io/'',
      str ''https://docs.'' @ libraryLower @ str ''.com/'',
      str ''https://'' @ libraryLower @ str ''.org/docs/'',
      str ''https://github.com/'' @ libraryLower @ str ''/'' @ libraryLower]"

definition sourceNotFound :: "jsString \<Rightarrow> jsString \<Rightarrow> error" where
  "sourceNotFound library libraryLower =
     Error (str ''Documentation source not found for '' @ [0x22] @ library @ [0x22] @ str ''. '' @
            str ''Tried: '' @ join (str '', '') (possibleUrls libraryLower) @ str ''. '' @
            str ''You can add it manually to CHECK-MODULE.'')"

text \<open>
  The network and the reduction of markup to text are a parameter \<open>web\<close>: for the string
  handed to \<^verbatim>\<open>fetch\<close> it gives either the message of the failure raised inside the
  \<^verbatim>\<open>try\<close> block of \<^verbatim>\<open>fetchUrl\<close>, or the text that block computes from the response.
\<close>

definition fetchUrl :: "(jsString \<Rightarrow> jsString + jsString) \<Rightarrow> jsString \<Rightarrow> error + jsString" where
  "fetchUrl web u =
     (case web u of
        Inl message \<Rightarrow> Inl (Error (str ''Failed to fetch '' @ u @ str '': '' @ message))
      | Inr text \<Rightarrow> Inr text)"

text \<open>
  The loop over the lines of the page. On a match at line \<open>i\<close> it pushes the lines from
  \<open>max 0 (i - 3)\<close> up to \<open>min (length lines) (i + 10)\<close>, sets \<open>i\<close> to that end, and
  the increment of the \<^verbatim>\<open>for\<close> statement then moves one line further.
\<close>

function scanLines ::
  "(jsString \<Rightarrow> jsString) \<Rightarrow> jsString list \<Rightarrow> jsString \<Rightarrow> nat \<Rightarrow> jsString list \<Rightarrow> jsString list" where
  "scanLines lower lines queryLower i relevantLines =
     (if i < length lines
      then (if includesStr (lower (lines ! i)) queryLower
            then (let start = max 0 (int i - 3);
                      end = min (int (length lines)) (int i + 10)
                  in scanLines lower lines queryLower (nat end + 1)
                       (relevantLines @ slice lines start end))
            else scanLines lower lines queryLower (i + 1) relevantLines)
      else relevantLines)"
  by pat_completeness auto
termination
  by (relation "measure (\<lambda>(lower, lines, queryLower, i, relevantLines). length lines - i)") auto

text \<open>
  The line indices at which the test of the loop succeeds, in the order of the scan, and
  for such an index the bounds \<^verbatim>\<open>start\<close> and \<^verbatim>\<open>end\<close> of its window and the lines the loop
  pushes. \<open>scanLines_matches\<close> below relates them to the loop.
\<close>

function scanMatches :: "(jsString \<Rightarrow> jsString) \<Rightarrow> jsString list \<Rightarrow> jsString \<Rightarrow> nat \<Rightarrow> nat list" where
  "scanMatches lower lines queryLower i =
     (if i < length lines
      then (if includesStr (lower (lines ! i)) queryLower
            then i # scanMatches lower lines queryLower
                       (nat (min (int (length lines)) (int i + 10)) + 1)
            else scanMatches lower lines queryLower (i + 1))
      else [])"
  by pat_completeness auto
termination
  by (relation "measure (\<lambda>(lower, lines, queryLower, i). length lines - i)") auto

definition windowBounds :: "nat \<Rightarrow> nat \<Rightarrow> int \<times> int" where
  "windowBounds lineCount i = (max 0 (int i - 3), min (int lineCount) (int i + 10))"

definition window :: "jsString list \<Rightarrow> nat \<Rightarrow> jsString list" where
  "window lines i = (case windowBounds (length lines) i of (start, end) \<Rightarrow> slice lines start end)"

text \<open>
  The filtering step: it applies to a topic that is present and not empty (an empty string
  is falsy), and keeps the whole text when the loop pushed no line.
\<close>

definition filterContent :: "(jsString \<Rightarrow> jsString) \<Rightarrow> jsString \<Rightarrow> jsString option \<Rightarrow> jsString" where
  "filterContent lower pageText topic =
     (case topic of
        None \<Rightarrow> pageText
      | Some q \<Rightarrow>
          if q = [] then pageText
          else (let queryLower = lower q;
                    lines = split pageText;
                    relevantLines = scanLines lower lines queryLower 0 []
                in if length relevantLines > 0 then join [0x0A] relevantLines else pageText))"

definition MAX_LENGTH :: nat where
  "MAX_LENGTH = 5000"

definition truncationMarker :: jsString where
  "truncationMarker = str ''\<newline>\<newline>... (content truncated)''"

definition limitLength :: "jsString \<Rightarrow> jsString" where
  "limitLength filteredContent =
     (if length filteredContent > MAX_LENGTH
      then take MAX_LENGTH filteredContent @ truncationMarker
      else filteredContent)"

text \<open>
  \<^verbatim>\<open>searchLibraryDocs\<close> returns the list of the strings it handed to \<^verbatim>\<open>fetch\<close>, then
  its result or failure.
\<close>

definition searchLibraryDocs ::
  "(jsString \<Rightarrow> jsString) \<Rightarrow> (jsString \<times> jsString) list \<Rightarrow> (jsString \<Rightarrow> jsString + jsString)
     \<Rightarrow> jsString \<Rightarrow> jsString option \<Rightarrow> jsString list \<times> (error + LibraryDocResult)" where
  "searchLibraryDocs lower sources web library topic =
     (let libraryLower = normalizeName lower library;
          docUrl = getProperty sources libraryLower
      in if \<not> truthy docUrl then ([], Inl (sourceNotFound library libraryLower))
         else (case fetchUrl web (toStr docUrl) of
                 Inl e \<Rightarrow> ([toStr docUrl], Inl e)
               | Inr pageText \<Rightarrow>
                   ([toStr docUrl],
                    Inr \<lparr>result_library = library, result_source = docUrl,
                         result_content = limitLength (filterContent lower pageText topic),
                         result_url = docUrl\<rparr>)))"

section \<open>Vocabulary of the claims and concrete inputs\<close>

subsection \<open>Vocabulary of the claims\<close>

text \<open>
  The first occurrence of \<open>needle\<close> in \<open>hay\<close> is at offset \<open>p\<close>; the substring of
  \<open>s\<close> from offset \<open>a\<close> up to, not including, offset \<open>b\<close>.
\<close>

definition firstOccurrence :: "'a list \<Rightarrow> 'a list \<Rightarrow> nat \<Rightarrow> bool" where
  "firstOccurrence needle hay p \<longleftrightarrow>
     p \<le> length hay \<and> prefix needle (drop p hay) \<and> (\<forall>j<p. \<not> prefix needle (drop j hay))"

definition substring :: "'a list \<Rightarrow> nat \<Rightarrow> nat \<Rightarrow> 'a list" where
  "substring s a b = take (b - a) (drop a s)"




text \<open>
  Windows given by their bounds, in scan order, do not overlap: each ends where the next
  starts, or before.
\<close>

definition nonOverlapping :: "(int \<times> int) list \<Rightarrow> bool" where
  "nonOverlapping ws = sorted_wrt (\<lambda>a b. snd a \<le> fst b) ws"

subsection \<open>Concrete inputs\<close>

text \<open>
  Three entries with the ids, titles, descriptions, categories and tags of the seed entries
  of \<^verbatim>\<open>initializeSampleDocs\<close>, and the first lines of their bodies.
\<close>

definition apiAuth :: DocEntry where
  "apiAuth = \<lparr>doc_id = str ''api-auth'', title = str ''Authentication API'',
     description = str ''How to authenticate with our internal API'',
     content = str ''# Authentication API\<newline>\<newline>## Overview\<newline>Our API uses JWT tokens for authentication.'',
     category = str ''API'', tags = [str ''authentication'', str ''security'', str ''jwt''],
     lastUpdated = 0, version = Some (str ''2.0'')\<rparr>"

definition dbSchema :: DocEntry where
  "dbSchema = \<lparr>doc_id = str ''db-schema'', title = str ''Database Schema'',
     description = str ''Internal database schema documentation'',
     content = str ''# Database Schema\<newline>\<newline>## Users Table'',
     category = str ''Database'', tags = [str ''schema'', str ''postgresql'', str ''database''],
     lastUpdated = 0, version = Some (str ''1.5'')\<rparr>"

definition deployGuide :: DocEntry where
  "deployGuide = \<lparr>doc_id = str ''deploy-guide'', title = str ''Deployment Guide'',
     description = str ''How to deploy our applications'',
     content = str ''# Deployment Guide\<newline>\<newline>## Prerequisites\<newline>- Docker installed'',
     category = str ''DevOps'', tags = [str ''deployment'', str ''docker'', str ''kubernetes''],
     lastUpdated = 0, version = Some (str ''3.0'')\<rparr>"

definition seedStore :: DocumentationStore where
  "seedStore =
     [(str ''api-auth'', apiAuth), (str ''db-schema'', dbSchema), (str ''deploy-guide'', deployGuide)]"

text \<open>Queries: a word in another case than the stored text, and a letter with limits.\<close>

definition apiQuery :: SearchOptions where
  "apiQuery = \<lparr>query = str ''api'', opt_category = None, opt_tags = None, limit = None\<rparr>"

definition firstHit :: SearchOptions where
  "firstHit = \<lparr>query = str ''s'', opt_category = None, opt_tags = None, limit = Some 1\<rparr>"

definition noLimit :: SearchOptions where
  "noLimit = \<lparr>query = str ''s'', opt_category = None, opt_tags = None, limit = None\<rparr>"



text \<open>
  An entry whose content is sixty times U+0130, then \<^verbatim>\<open>needle\<close>, then ten times
  \<^verbatim>\<open>z\<close>, and the query for \<^verbatim>\<open>needle\<close>.
\<close>

definition dottedDoc :: DocEntry where
  "dottedDoc = \<lparr>doc_id = str ''dotted'', title = str ''Dotted'', description = str ''Capital I with dot'',
     content = replicate 60 0x130 @ str ''needle'' @ replicate 10 0x7A,
     category = str ''Misc'', tags = [], lastUpdated = 0, version = None\<rparr>"

definition needleQuery :: SearchOptions where
  "needleQuery = \<lparr>query = str ''needle'', opt_category = None, opt_tags = None, limit = None\<rparr>"

text \<open>An entry that replaces a stored one.\<close>

definition newDoc :: DocEntry where
  "newDoc = \<lparr>doc_id = str ''db-schema'', title = str ''Schema v2'', description = str ''Revised schema'',
     content = str ''# Schema'', category = str ''Database'', tags = [str ''schema''],
     lastUpdated = 7, version = None\<rparr>"

text \<open>
  A network on which every fetch fails, a page of twelve one-letter lines with \<^verbatim>\<open>t\<close> on
  the first and the last, and a network that serves a page of 6000 characters.
\<close>

definition offline :: "jsString \<Rightarrow> jsString + jsString" where
  "offline u = Inl (str ''fetch failed'')"

definition twelveLines :: jsString where
  "twelveLines = str ''t\<newline>a\<newline>b\<newline>c\<newline>d\<newline>e\<newline>f\<newline>g\<newline>h\<newline>i\<newline>j\<newline>t''"

definition bigPage :: "jsString \<Rightarrow> jsString + jsString" where
  "bigPage u = Inr (replicate 6000 0x61)"

section \<open>Basic facts\<close>

subsection \<open>Literals and lower-casing\<close>

lemma length_str: "length (str s) = length s"
  by (simp add: str_def)

lemma lowerUnit_nonempty: "lowerUnit u \<noteq> []"
  by (simp add: lowerUnit_def)

lemma toLowerCase_empty: "toLowerCase s = [] \<longleftrightarrow> s = []"
  by (cases s) (simp_all add: toLowerCase_def lowerUnit_nonempty)






subsection \<open>Searching a string\<close>

lemma indexOf_ge: "- 1 \<le> indexOf hay needle"
  by (induction hay) (auto simp: Let_def)

lemma indexOf_sublist: "indexOf hay needle \<noteq> - 1 \<longleftrightarrow> sublist needle hay"
proof (induction hay)
  case Nil
  then show ?case by simp
next
  case (Cons h hs)
  show ?case
  proof (cases "prefix needle (h # hs)")
    case True
    then show ?thesis by (auto simp: sublist_Cons_right)
  next
    case False
    then show ?thesis using Cons indexOf_ge[of hs needle]
      by (auto simp: Let_def sublist_Cons_right)
  qed
qed

lemma includesStr_sublist: "includesStr hay needle \<longleftrightarrow> sublist needle hay"
  by (simp add: includesStr_def indexOf_sublist)

text \<open>A non-negative result of \<open>indexOf\<close> is the first position where the needle starts.\<close>

lemma indexOf_first:
  "indexOf hay needle = int p \<longleftrightarrow>
     p \<le> length hay \<and> prefix needle (drop p hay) \<and> (\<forall>j<p. \<not> prefix needle (drop j hay))"
proof (induction hay arbitrary: p)
  case Nil
  then show ?case by auto
next
  case (Cons h hs)
  show ?case
  proof (cases "prefix needle (h # hs)")
    case True
    then show ?thesis by (cases p) auto
  next
    case False
    show ?thesis
    proof (cases p)
      case 0
      with False show ?thesis using indexOf_ge[of hs needle] by (auto simp: Let_def)
    next
      case (Suc k)
      have "indexOf (h # hs) needle = int (Suc k) \<longleftrightarrow> indexOf hs needle = int k"
        using False indexOf_ge[of hs needle] by (auto simp: Let_def)
      also have "\<dots> \<longleftrightarrow>
          k \<le> length hs \<and> prefix needle (drop k hs) \<and> (\<forall>j<k. \<not> prefix needle (drop j hs))"
        by (rule Cons.IH)
      also have "\<dots> \<longleftrightarrow> Suc k \<le> length (h # hs) \<and> prefix needle (drop (Suc k) (h # hs)) \<and>
           (\<forall>j<Suc k. \<not> prefix needle (drop j (h # hs)))"
        using False by (auto simp: less_Suc_eq_0_disj)
      finally show ?thesis using Suc by simp
    qed
  qed
qed

lemma indexOf_firstOccurrence:
  "indexOf hay needle = int p \<longleftrightarrow> firstOccurrence needle hay p"
  by (simp add: indexOf_first firstOccurrence_def)

lemma sublist_firstOccurrence:
  "sublist needle hay \<longleftrightarrow> (\<exists>p. firstOccurrence needle hay p)"
proof
  assume "sublist needle hay"
  then have "indexOf hay needle \<noteq> - 1" by (simp add: indexOf_sublist)
  with indexOf_ge[of hay needle] have "0 \<le> indexOf hay needle" by linarith
  then obtain p where "indexOf hay needle = int p" using nonneg_int_cases by blast
  then show "\<exists>p. firstOccurrence needle hay p" using indexOf_firstOccurrence by blast
next
  assume "\<exists>p. firstOccurrence needle hay p"
  then obtain p where "indexOf hay needle = int p" using indexOf_firstOccurrence by blast
  then have "indexOf hay needle \<noteq> - 1" by simp
  then show "sublist needle hay" by (simp add: indexOf_sublist)
qed

subsection \<open>Slices\<close>

lemma set_slice: "set (slice xs a b) \<subseteq> set xs"
  unfolding slice_def Let_def by (meson set_take_subset set_drop_subset subset_trans)

lemma slice_from_0: "0 \<le> e \<Longrightarrow> slice xs 0 e = take (nat e) xs"
  by (auto simp: slice_def Let_def min_def)

lemma slice_empty: "slice xs 0 0 = []"
  by (simp add: slice_def)

lemma slice_window:
  "a \<le> length xs \<Longrightarrow> b \<le> length xs \<Longrightarrow> slice xs (int a) (int b) = take (b - a) (drop a xs)"
  by (simp add: slice_def Let_def min_def nat_diff_distrib')

subsection \<open>The search loop\<close>

lemma visit_cases:
  "visit lower options results d = results \<or>
   (visit lower options results d =
      results @ [\<lparr>doc = d, score = computeScore lower (lower (query options)) d,
                  excerpt = createExcerpt lower (lower (query options)) d\<rparr>]
    \<and> 0 < computeScore lower (lower (query options)) d)"
  by (simp add: visit_def Let_def)

lemma foldl_visit_hits:
  "r \<in> set (foldl (visit lower options) acc ds) \<Longrightarrow>
     r \<in> set acc \<or>
     (doc r \<in> set ds \<and> score r = computeScore lower (lower (query options)) (doc r) \<and>
      0 < score r \<and> excerpt r = createExcerpt lower (lower (query options)) (doc r))"
proof (induction ds arbitrary: acc)
  case Nil
  then show ?case by simp
next
  case (Cons d ds)
  from Cons.prems have "r \<in> set (foldl (visit lower options) (visit lower options acc d) ds)"
    by simp
  from Cons.IH[OF this] show ?case
    using visit_cases[of lower options acc d] by auto
qed



lemma collectResults_hit:
  assumes "r \<in> set (collectResults lower docs options)"
  shows "doc r \<in> set (getAllDocs docs) \<and>
         score r = computeScore lower (lower (query options)) (doc r) \<and> 0 < score r \<and>
         excerpt r = createExcerpt lower (lower (query options)) (doc r)"
  using foldl_visit_hits[of r lower options "[]" "map snd docs"] assms
  by (auto simp: collectResults_def getAllDocs_def)

lemma search_subset: "set (search lower docs options) \<subseteq> set (collectResults lower docs options)"
  using set_slice[of "sort_key (\<lambda>r. - score r) (collectResults lower docs options)"]
  by (auto simp: search_def Let_def)

lemma search_hit:
  assumes "r \<in> set (search lower docs options)"
  shows "doc r \<in> set (getAllDocs docs) \<and>
         score r = computeScore lower (lower (query options)) (doc r) \<and> 0 < score r \<and>
         excerpt r = createExcerpt lower (lower (query options)) (doc r)"
  using collectResults_hit[of r lower docs options] search_subset[of lower docs options] assms
  by auto

lemma computeScore_sum:
  "computeScore lower ql d =
     (if sublist ql (lower (title d)) then 10 else 0) +
     (if sublist ql (lower (description d)) then 5 else 0) +
     (if sublist ql (lower (content d)) then 2 else 0) +
     (if \<exists>tag \<in> set (tags d). sublist ql (lower tag) then 3 else 0)"
  by (simp add: computeScore_def Let_def includesStr_sublist list_ex_iff)

lemma search_sorted: "sorted_wrt (\<lambda>a b. score b \<le> score a) (search lower docs options)"
proof -
  let ?xs = "sort_key (\<lambda>r. - score r) (collectResults lower docs options)"
  have "sorted (map (\<lambda>r. - score r) ?xs)" by (rule sorted_sort_key)
  then have "sorted_wrt (\<lambda>a b. score b \<le> score a) ?xs" by (simp add: sorted_map)
  then show ?thesis
    by (simp add: search_def slice_def Let_def sorted_wrt_take sorted_wrt_drop)
qed

subsection \<open>Excerpts and limits\<close>

text \<open>
  The excerpt in terms of the position \<open>p\<close> at which the lower-cased query first occurs in
  the lower-cased content. The slice is taken at that position in the content itself.
\<close>

lemma createExcerpt_found:
  assumes "firstOccurrence ql (lower (content d)) p"
  shows "createExcerpt lower ql d =
    str ''...'' @
    slice (content d) (max 0 (int p - 50)) (min (int (length (content d))) (int p + 150)) @
    str ''...''"
proof -
  have "indexOf (lower (content d)) ql = int p"
    using assms by (simp add: indexOf_firstOccurrence)
  then show ?thesis by (simp add: createExcerpt_def Let_def)
qed

lemma createExcerpt_absent:
  "\<not> sublist ql (lower (content d)) \<Longrightarrow> createExcerpt lower ql d = description d"
  by (simp add: createExcerpt_def Let_def indexOf_sublist)

lemma search_excerpt_lowered:
  "r \<in> set (search lower docs options) \<Longrightarrow>
     (firstOccurrence (lower (query options)) (lower (content (doc r))) p \<longrightarrow>
        excerpt r = str ''...'' @
          slice (content (doc r)) (max 0 (int p - 50))
            (min (int (length (content (doc r)))) (int p + 150)) @ str ''...'') \<and>
     (\<not> sublist (lower (query options)) (lower (content (doc r))) \<longrightarrow>
        excerpt r = description (doc r))"
  using search_hit[of r lower docs options] createExcerpt_found createExcerpt_absent by auto

lemma visit_limit: "visit lower (options\<lparr>limit := l\<rparr>) = visit lower options"
  by (intro ext) (simp add: visit_def categoryExcludes_def tagsExclude_def)

lemma collectResults_limit:
  "collectResults lower docs (options\<lparr>limit := l\<rparr>) = collectResults lower docs options"
  by (simp add: collectResults_def visit_limit)

text \<open>A negative limit counts from the end: the slice drops that many results.\<close>

lemma search_negative_limit:
  "limit options = Some l \<Longrightarrow> l < 0 \<Longrightarrow>
     length (search lower docs options) = length (collectResults lower docs options) - nat (- l)"
  by (auto simp: search_def slice_def Let_def)

subsection \<open>The scan over the lines of a page\<close>

text \<open>
  The two loops are unfolded at the index in hand only, and proved by computation
  induction.
\<close>

declare scanLines.simps [simp del] scanMatches.simps [simp del]

lemma scanLines_matches:
  "scanLines lower lines q i rel = rel @ concat (map (window lines) (scanMatches lower lines q i))"
proof (induction lower lines q i rel rule: scanLines.induct)
  case (1 lower lines q i rel)
  show ?case
  proof (cases "i < length lines")
    case False
    then show ?thesis
      by (simp add: scanLines.simps[of lower lines q i] scanMatches.simps[of lower lines q i])
  next
    case inside: True
    show ?thesis
    proof (cases "includesStr (lower (lines ! i)) q")
      case True
      from "1.IH"(1)[OF inside True refl refl] inside True show ?thesis
        by (simp add: scanLines.simps[of lower lines q i] scanMatches.simps[of lower lines q i]
            window_def windowBounds_def Let_def)
    next
      case False
      from "1.IH"(2)[OF inside False] inside False show ?thesis
        by (simp add: scanLines.simps[of lower lines q i] scanMatches.simps[of lower lines q i])
    qed
  qed
qed

lemma scanMatches_valid:
  "m \<in> set (scanMatches lower lines q i) \<Longrightarrow>
     i \<le> m \<and> m < length lines \<and> includesStr (lower (lines ! m)) q"
proof (induction lower lines q i rule: scanMatches.induct)
  case (1 lower lines q i)
  show ?case
  proof (cases "i < length lines")
    case False
    with "1.prems" show ?thesis by (simp add: scanMatches.simps[of lower lines q i])
  next
    case inside: True
    show ?thesis
    proof (cases "includesStr (lower (lines ! i)) q")
      case True
      from "1.prems" inside True have
        "m = i \<or>
         m \<in> set (scanMatches lower lines q (nat (min (int (length lines)) (int i + 10)) + 1))"
        by (simp add: scanMatches.simps[of lower lines q i])
      then show ?thesis
      proof
        assume "m = i"
        with inside True show ?thesis by simp
      next
        assume "m \<in> set (scanMatches lower lines q
                  (nat (min (int (length lines)) (int i + 10)) + 1))"
        from "1.IH"(1)[OF inside True this] inside show ?thesis by auto
      qed
    next
      case False
      from "1.prems" inside False have "m \<in> set (scanMatches lower lines q (i + 1))"
        by (simp add: scanMatches.simps[of lower lines q i])
      from "1.IH"(2)[OF inside False this] show ?thesis by auto
    qed
  qed
qed

lemma scanMatches_gaps:
  "sorted_wrt (\<lambda>a b. min (length lines) (a + 10) < b) (scanMatches lower lines q i)"
proof (induction lower lines q i rule: scanMatches.induct)
  case (1 lower lines q i)
  show ?case
  proof (cases "i < length lines")
    case False
    then show ?thesis by (simp add: scanMatches.simps[of lower lines q i])
  next
    case inside: True
    show ?thesis
    proof (cases "includesStr (lower (lines ! i)) q")
      case True
      have later: "\<forall>m \<in> set (scanMatches lower lines q
            (nat (min (int (length lines)) (int i + 10)) + 1)).
          min (length lines) (i + 10) < m"
        using scanMatches_valid[of _ lower lines q
            "nat (min (int (length lines)) (int i + 10)) + 1"]
        by fastforce
      from "1.IH"(1)[OF inside True] later inside True show ?thesis
        by (simp add: scanMatches.simps[of lower lines q i])
    next
      case False
      from "1.IH"(2)[OF inside False] inside False show ?thesis
        by (simp add: scanMatches.simps[of lower lines q i])
    qed
  qed
qed

lemma scanMatches_cover:
  "i \<le> j \<Longrightarrow> j < length lines \<Longrightarrow> includesStr (lower (lines ! j)) q \<Longrightarrow>
     j \<in> set (scanMatches lower lines q i) \<or>
     (\<exists>m \<in> set (scanMatches lower lines q i). m < j \<and> j \<le> min (length lines) (m + 10))"
proof (induction lower lines q i rule: scanMatches.induct)
  case (1 lower lines q i)
  from "1.prems" have inside: "i < length lines" by simp
  show ?case
  proof (cases "includesStr (lower (lines ! i)) q")
    case True
    let ?next = "nat (min (int (length lines)) (int i + 10)) + 1"
    have unfold: "scanMatches lower lines q i = i # scanMatches lower lines q ?next"
      using inside True by (simp add: scanMatches.simps[of lower lines q i])
    show ?thesis
    proof (cases "?next \<le> j")
      case True
      from "1.IH"(1)[OF inside \<open>includesStr (lower (lines ! i)) q\<close> True "1.prems"(2,3)]
      show ?thesis unfolding unfold by auto
    next
      case False
      then have "j \<le> min (length lines) (i + 10)" by auto
      with "1.prems"(1) show ?thesis unfolding unfold by (cases "j = i") auto
    qed
  next
    case False
    with "1.prems" have "i + 1 \<le> j" by (cases "j = i") auto
    from "1.IH"(2)[OF inside False this "1.prems"(2,3)] inside False show ?thesis
      by (simp add: scanMatches.simps[of lower lines q i])
  qed
qed

lemma scanMatches_empty:
  "scanMatches lower lines q i = [] \<longleftrightarrow>
     \<not> (\<exists>j. i \<le> j \<and> j < length lines \<and> includesStr (lower (lines ! j)) q)"
proof
  assume e: "scanMatches lower lines q i = []"
  show "\<not> (\<exists>j. i \<le> j \<and> j < length lines \<and> includesStr (lower (lines ! j)) q)"
  proof
    assume "\<exists>j. i \<le> j \<and> j < length lines \<and> includesStr (lower (lines ! j)) q"
    then obtain j where "i \<le> j" "j < length lines" "includesStr (lower (lines ! j)) q"
      by blast
    from scanMatches_cover[where lower = lower, OF this] e show False by simp
  qed
next
  assume n: "\<not> (\<exists>j. i \<le> j \<and> j < length lines \<and> includesStr (lower (lines ! j)) q)"
  show "scanMatches lower lines q i = []"
  proof (rule ccontr)
    assume "scanMatches lower lines q i \<noteq> []"
    then obtain m where "m \<in> set (scanMatches lower lines q i)"
      by (cases "scanMatches lower lines q i") auto
    from scanMatches_valid[OF this] n show False by blast
  qed
qed

lemma window_contains: "m < length lines \<Longrightarrow> lines ! m \<in> set (window lines m)"
proof -
  assume m: "m < length lines"
  have s: "max 0 (int m - 3) = int (m - 3)" by auto
  have e: "min (int (length lines)) (int m + 10) = int (min (length lines) (m + 10))" by auto
  have w: "window lines m = take (min (length lines) (m + 10) - (m - 3)) (drop (m - 3) lines)"
    unfolding window_def windowBounds_def prod.case s e using m by (intro slice_window) auto
  have "(take (min (length lines) (m + 10) - (m - 3)) (drop (m - 3) lines)) ! (m - (m - 3)) = lines ! m"
    using m by simp
  moreover have "m - (m - 3) < length (take (min (length lines) (m + 10) - (m - 3)) (drop (m - 3) lines))"
    using m by auto
  ultimately show ?thesis unfolding w by (metis nth_mem)
qed

lemma join_nonempty: "x \<in> set xs \<Longrightarrow> x \<noteq> [] \<Longrightarrow> join sep xs \<noteq> []"
  by (induction sep xs rule: join.induct) auto

lemma windows_empty_iff: "concat (map (window lines) ms) = [] \<longleftrightarrow> ms = []"
  if "\<forall>m \<in> set ms. m < length lines"
proof
  assume c: "concat (map (window lines) ms) = []"
  show "ms = []"
  proof (rule ccontr)
    assume "ms \<noteq> []"
    then obtain m where m: "m \<in> set ms" by (cases ms) auto
    with that have "lines ! m \<in> set (window lines m)" by (simp add: window_contains)
    with m have "lines ! m \<in> set (concat (map (window lines) ms))" by auto
    with c show False by simp
  qed
next
  assume "ms = []"
  then show "concat (map (window lines) ms) = []" by simp
qed

lemma filterContent_unfold:
  assumes "q \<noteq> []"
  shows "filterContent lower pageText (Some q) =
     (if scanMatches lower (split pageText) (lower q) 0 = [] then pageText
      else join [0x0A] (concat (map (window (split pageText))
             (scanMatches lower (split pageText) (lower q) 0))))"
proof -
  let ?ms = "scanMatches lower (split pageText) (lower q) 0"
  have v: "\<forall>m \<in> set ?ms. m < length (split pageText)"
    using scanMatches_valid by blast
  have r: "scanLines lower (split pageText) (lower q) 0 [] =
      concat (map (window (split pageText)) ?ms)"
    by (simp add: scanLines_matches)
  show ?thesis
    using assms windows_empty_iff[OF v]
    by (simp add: filterContent_def Let_def r)
qed

text \<open>
  The filtered content is empty only when the text is, for a lower-casing that gives the
  empty string for the empty string only.
\<close>

lemma filterContent_empty_iff:
  assumes "q \<noteq> []" and keeps: "\<forall>s. lower s = [] \<longleftrightarrow> s = []"
  shows "filterContent lower pageText (Some q) = [] \<longleftrightarrow> pageText = []"
proof -
  let ?lines = "split pageText"
  let ?ql = "lower q"
  let ?ms = "scanMatches lower ?lines ?ql 0"
  have qne: "?ql \<noteq> []" using assms by simp
  show ?thesis
  proof (cases "?ms = []")
    case True
    then show ?thesis by (simp add: filterContent_unfold[OF assms(1)])
  next
    case False
    then obtain m where m: "m \<in> set ?ms" by (cases ?ms) auto
    from scanMatches_valid[OF m] have ml: "m < length ?lines"
      and inc: "includesStr (lower (?lines ! m)) ?ql" by auto
    from inc have "sublist ?ql (lower (?lines ! m))" by (simp add: includesStr_sublist)
    with qne have "lower (?lines ! m) \<noteq> []" by auto
    then have ne: "?lines ! m \<noteq> []" using keeps by auto
    have "?lines ! m \<in> set (concat (map (window ?lines) ?ms))"
      using m window_contains[OF ml] by auto
    from join_nonempty[OF this ne] have out: "filterContent lower pageText (Some q) \<noteq> []"
      using False by (simp add: filterContent_unfold[OF assms(1)])
    have "pageText \<noteq> []"
    proof
      assume "pageText = []"
      then have "?lines = [[]]" by simp
      with ml have "?lines ! m = []" by simp
      with ne show False by simp
    qed
    with out show ?thesis by simp
  qed
qed

subsection \<open>Truncation and the registry\<close>

lemma limitLength_cases:
  "limitLength s =
     (if 5000 < length s then take 5000 s @ str ''\<newline>\<newline>... (content truncated)'' else s)"
  by (simp add: limitLength_def MAX_LENGTH_def truncationMarker_def)

lemma normalizeName_lowerAlnum: "list_all isLowerAlnum (normalizeName lower library)"
  by (simp add: normalizeName_def list_all_iff)

text \<open>
  Of the property names of \<^verbatim>\<open>Object.prototype\<close>, only \<^verbatim>\<open>constructor\<close> is made of small
  letters and digits, so it is the only one a normalized name can be.
\<close>

lemma prototypeKey_lowerAlnum:
  "List.member objectPrototypeKeys k \<Longrightarrow> list_all isLowerAlnum k \<Longrightarrow> k = str ''constructor''"
  by (auto simp: objectPrototypeKeys_def isLowerAlnum_def str_def)

lemma getProperty_normalized:
  "map_of sources (normalizeName lower library) = None \<Longrightarrow>
   normalizeName lower library \<noteq> str ''constructor'' \<Longrightarrow>
     getProperty sources (normalizeName lower library) = JUndefined"
  using prototypeKey_lowerAlnum[OF _ normalizeName_lowerAlnum[of lower library]]
  by (auto simp: getProperty_def)

text \<open>
  Every library name whose normalized form is neither registered nor \<^verbatim>\<open>constructor\<close> fails
  with the message that carries the four guessed URLs, and nothing is handed to
  \<^verbatim>\<open>fetch\<close>.
\<close>

lemma searchLibraryDocs_unknown:
  assumes "normalizeName lower library \<notin> fst ` set sources"
    and "normalizeName lower library \<noteq> str ''constructor''"
  shows "searchLibraryDocs lower sources web library topic =
      ([], Inl (sourceNotFound library (normalizeName lower library))) \<and>
    possibleUrls (normalizeName lower library) =
      [str ''https://'' @ normalizeName lower library @ str ''.readthedocs.io/'',
       str ''https://docs.'' @ normalizeName lower library @ str ''.com/'',
       str ''https://'' @ normalizeName lower library @ str ''.org/docs/'',
       str ''https://github.com/'' @ normalizeName lower library @ str ''/'' @
         normalizeName lower library]"
proof -
  from assms(1) have "map_of sources (normalizeName lower library) = None"
    by (simp add: map_of_eq_None_iff)
  from getProperty_normalized[OF this assms(2)] show ?thesis
    by (simp add: searchLibraryDocs_def possibleUrls_def)
qed

lemma getProperty_update:
  "getProperty (AList.update k u sources) k = JString u"
  by (simp add: getProperty_def update_conv')

section \<open>Claims about search\<close>



text \<open>
  C2. Every result of \<open>search\<close> has a positive score, and a document whose score is 0
  is the document of no result; the score is 0 when the lower-cased query occurs in none of
  the lower-cased title, description, content and tags.
\<close>

theorem search_excludes_zero_score:
  "(\<forall>r \<in> set (search lower docs options). 0 < score r) \<and>
   (computeScore lower (lower (query options)) d = 0 \<longrightarrow>
      d \<notin> doc ` set (search lower docs options)) \<and>
   (\<not> sublist (lower (query options)) (lower (title d)) \<and>
    \<not> sublist (lower (query options)) (lower (description d)) \<and>
    \<not> sublist (lower (query options)) (lower (content d)) \<and>
    \<not> (\<exists>tag \<in> set (tags d). sublist (lower (query options)) (lower tag))
    \<longrightarrow> computeScore lower (lower (query options)) d = 0)"
proof -
  have pos: "\<forall>r \<in> set (search lower docs options). 0 < score r"
    using search_hit by blast
  have zero: "computeScore lower (lower (query options)) d = 0 \<longrightarrow>
      d \<notin> doc ` set (search lower docs options)"
  proof
    assume z: "computeScore lower (lower (query options)) d = 0"
    show "d \<notin> doc ` set (search lower docs options)"
    proof
      assume "d \<in> doc ` set (search lower docs options)"
      then obtain r where r: "r \<in> set (search lower docs options)" and d: "d = doc r" by blast
      from search_hit[OF r] have "0 < computeScore lower (lower (query options)) (doc r)"
        by simp
      with z d show False by simp
    qed
  qed
  show ?thesis using pos zero by (simp add: computeScore_sum)
qed

theorem search_excludes_zero_score_witness:
  "search toLowerCase seedStore apiQuery \<noteq> [] \<and>
   list_all (\<lambda>r. 0 < score r) (search toLowerCase seedStore apiQuery) \<and>
   computeScore toLowerCase (toLowerCase (query apiQuery)) dbSchema = 0 \<and>
   dbSchema \<in> set (getAllDocs seedStore) \<and>
   dbSchema \<notin> doc ` set (search toLowerCase seedStore apiQuery)"
proof -
  have ne: "search toLowerCase seedStore apiQuery \<noteq> []" by code_simp
  have z: "computeScore toLowerCase (toLowerCase (query apiQuery)) dbSchema = 0" by code_simp
  have mem: "dbSchema \<in> set (getAllDocs seedStore)" by (simp add: getAllDocs_def seedStore_def)
  from search_excludes_zero_score[of toLowerCase seedStore apiQuery dbSchema] ne z mem
  show ?thesis by (simp add: list_all_iff)
qed

text \<open>
  C3. The results of \<open>search\<close> are in descending order of score. For a limit that is not
  negative (10 when the field is absent) there are at most that many results, exactly the
  smaller of the limit and the number of matching documents: one result for a limit of 1
  and three matching documents.
\<close>

theorem search_sorted_and_limited:
  "sorted_wrt (\<lambda>a b. score b \<le> score a) (search lower docs options) \<and>
   (0 \<le> (case limit options of None \<Rightarrow> 10 | Some l \<Rightarrow> l) \<longrightarrow>
      int (length (search lower docs options)) \<le> (case limit options of None \<Rightarrow> 10 | Some l \<Rightarrow> l) \<and>
      length (search lower docs options) =
        min (nat (case limit options of None \<Rightarrow> 10 | Some l \<Rightarrow> l))
            (length (collectResults lower docs options))) \<and>
   (limit options = None \<longrightarrow> length (search lower docs options) \<le> 10) \<and>
   (limit options = Some 1 \<and> length (collectResults lower docs options) = 3 \<longrightarrow>
      length (search lower docs options) = 1)"
proof -
  let ?lim = "case limit options of None \<Rightarrow> 10 | Some l \<Rightarrow> l"
  have len: "0 \<le> ?lim \<Longrightarrow>
      length (search lower docs options) =
        min (nat ?lim) (length (collectResults lower docs options))"
    by (simp add: search_def slice_from_0 min.commute)
  have a: "0 \<le> ?lim \<longrightarrow> int (length (search lower docs options)) \<le> ?lim \<and>
      length (search lower docs options) =
        min (nat ?lim) (length (collectResults lower docs options))"
    using len by auto
  have b: "limit options = None \<longrightarrow> length (search lower docs options) \<le> 10"
    using len by auto
  have c: "limit options = Some 1 \<and> length (collectResults lower docs options) = 3 \<longrightarrow>
      length (search lower docs options) = 1"
    using len by auto
  from search_sorted[of lower docs options] a b c show ?thesis by blast
qed

theorem search_sorted_and_limited_witness:
  "limit firstHit = Some 1 \<and> length (collectResults toLowerCase seedStore firstHit) = 3 \<and>
   length (search toLowerCase seedStore firstHit) = 1 \<and>
   map (\<lambda>r. doc_id (doc r)) (search toLowerCase seedStore firstHit) = [str ''db-schema''] \<and>
   limit noLimit = None \<and> length (search toLowerCase seedStore noLimit) \<le> 10 \<and>
   map score (search toLowerCase seedStore noLimit) = [20, 10, 5] \<and>
   sorted_wrt (\<lambda>a b. score b \<le> score a) (search toLowerCase seedStore noLimit)"
proof -
  have l1: "limit firstHit = Some 1" by (simp add: firstHit_def)
  have c3: "length (collectResults toLowerCase seedStore firstHit) = 3" by code_simp
  have l2: "limit noLimit = None" by (simp add: noLimit_def)
  have sc: "map score (search toLowerCase seedStore noLimit) = [20, 10, 5]" by code_simp
  have top: "map (\<lambda>r. doc_id (doc r)) (search toLowerCase seedStore firstHit) = [str ''db-schema'']"
    by code_simp
  from search_sorted_and_limited[of toLowerCase seedStore firstHit]
       search_sorted_and_limited[of toLowerCase seedStore noLimit] l1 c3 l2 sc top
  show ?thesis by simp
qed

text \<open>
  C4 at a content in which lower-casing moves the match. The content is U+0130 sixty times,
  then \<^verbatim>\<open>needle\<close>, then \<^verbatim>\<open>z\<close> ten times, 76 code units in all, and the query is
  \<^verbatim>\<open>needle\<close>: it occurs in the content at offset 60, so the window of the claim is the
  content from offset 10 to offset 76. Lower-casing turns each U+0130 into two code units,
  the search in the lower-cased content finds the query at offset 120, and the slice of the
  content from offset 70 to offset 76 is six times \<^verbatim>\<open>z\<close>: the excerpt does not contain the
  match. \<open>search_excerpt_lowered\<close> above states what holds of every result: the window is
  placed by the offset in the lower-cased content.
\<close>

theorem search_excerpt_dotted:
  "modelled (content dottedDoc) \<and> modelled (query needleQuery) \<and>
   length (content dottedDoc) = 76 \<and>
   indexOf (content dottedDoc) (query needleQuery) = 60 \<and>
   indexOf (toLowerCase (content dottedDoc)) (toLowerCase (query needleQuery)) = 120 \<and>
   search toLowerCase [(str ''dotted'', dottedDoc)] needleQuery =
     [\<lparr>doc = dottedDoc, score = 2, excerpt = str ''...zzzzzz...''\<rparr>] \<and>
   str ''...'' @ substring (content dottedDoc) 10 76 @ str ''...'' =
     str ''...'' @ replicate 50 0x130 @ str ''needle'' @ replicate 10 0x7A @ str ''...''"
  by code_simp

text \<open>
  C8. After \<open>addDoc\<close> of a document, \<open>getDocById\<close> of its id gives the document with
  every field as supplied but \<open>lastUpdated\<close>, which is the clock reading of the call
  whatever the caller supplied.
\<close>

theorem addDoc_then_getDocById:
  "getDocById (addDoc now docs d) (doc_id d) = Some (d\<lparr>lastUpdated := now\<rparr>) \<and>
   (\<exists>e. getDocById (addDoc now docs d) (doc_id d) = Some e \<and>
      doc_id e = doc_id d \<and> title e = title d \<and> description e = description d \<and>
      content e = content d \<and> category e = category d \<and> tags e = tags d \<and>
      version e = version d \<and> lastUpdated e = now \<and> now \<le> lastUpdated e)"
  by (simp add: getDocById_def addDoc_def update_conv')

theorem addDoc_then_getDocById_witness:
  "getDocById (addDoc 42 seedStore newDoc) (str ''db-schema'') = Some (newDoc\<lparr>lastUpdated := 42\<rparr>) \<and>
   getDocById seedStore (str ''db-schema'') = Some dbSchema \<and>
   map fst (addDoc 42 seedStore newDoc) = [str ''api-auth'', str ''db-schema'', str ''deploy-guide'']"
proof -
  have i: "doc_id newDoc = str ''db-schema''" by (simp add: newDoc_def)
  have g: "getDocById seedStore (str ''db-schema'') = Some dbSchema" by code_simp
  have k: "map fst (addDoc 42 seedStore newDoc) =
      [str ''api-auth'', str ''db-schema'', str ''deploy-guide'']" by code_simp
  from addDoc_then_getDocById[of 42 seedStore newDoc] i g k show ?thesis by simp
qed

text \<open>
  C10. A limit of 0 gives no result at all, and an absent limit behaves as a limit of 10:
  the default is for the absent field only.
\<close>

theorem search_limit_zero:
  "search lower docs (options\<lparr>limit := Some 0\<rparr>) = [] \<and>
   search lower docs (options\<lparr>limit := None\<rparr>) = search lower docs (options\<lparr>limit := Some 10\<rparr>)"
  by (simp add: search_def slice_empty collectResults_limit)

theorem search_limit_zero_witness:
  "search toLowerCase seedStore (noLimit\<lparr>limit := Some 0\<rparr>) = [] \<and>
   length (search toLowerCase seedStore (noLimit\<lparr>limit := None\<rparr>)) = 3 \<and>
   length (search toLowerCase seedStore (noLimit\<lparr>limit := Some 10\<rparr>)) = 3"
proof -
  have n: "length (search toLowerCase seedStore (noLimit\<lparr>limit := None\<rparr>)) = 3" by code_simp
  from search_limit_zero[of toLowerCase seedStore noLimit] n show ?thesis by simp
qed

section \<open>Claims about the fetcher\<close>

text \<open>
  C5, the windows can overlap. In a page of twelve one-letter lines with the topic on lines
  0 and 11, the first window is lines 0 to 9, the scan resumes at line 11, and the window of
  line 11 starts at line 8: the windows are not disjoint, and the filtered content has
  lines 8 and 9 twice.
\<close>

theorem filterContent_windows_overlap:
  "map (windowBounds (length (split twelveLines)))
       (scanMatches toLowerCase (split twelveLines) (toLowerCase (str ''t'')) 0) =
     [(0, 10), (8, 12)] \<and>
   \<not> nonOverlapping (map (windowBounds (length (split twelveLines)))
       (scanMatches toLowerCase (split twelveLines) (toLowerCase (str ''t'')) 0)) \<and>
   filterContent toLowerCase twelveLines (Some (str ''t'')) =
     str ''t\<newline>a\<newline>b\<newline>c\<newline>d\<newline>e\<newline>f\<newline>g\<newline>h\<newline>i\<newline>h\<newline>i\<newline>j\<newline>t''"
  by code_simp

text \<open>
  C5, what holds of the windows. For a topic that is not empty, the filtered content is the
  windows of the matches the scan reaches, in scan order, their lines joined by newlines,
  the window of a match at line \<open>i\<close> being the lines from \<open>max 0 (i - 3)\<close> up to
  \<open>min lineCount (i + 10)\<close>. Every reached match is a line that contains the lower-cased
  topic; each later reached match lies at or beyond the end of the earlier window, so the
  next window starts at most three lines before that end; a matching line that is not
  reached lies after a reached match, no further than its window's end. When no line
  matches, and only then, no match is reached and the filtered content is the whole text;
  so the filtered content is empty only when the text is, lower-casing giving the empty
  string for the empty string only, as the host's does. An empty or absent topic leaves the
  text as it is.
\<close>

theorem filterContent_windows:
  "(q \<noteq> [] \<longrightarrow>
     (let lines = split pageText; ql = lower q; ms = scanMatches lower lines ql 0 in
        filterContent lower pageText (Some q) =
          (if ms = [] then pageText else join [0x0A] (concat (map (window lines) ms))) \<and>
        (\<forall>m \<in> set ms. m < length lines \<and> sublist ql (lower (lines ! m))) \<and>
        sorted_wrt (\<lambda>a b. min (length lines) (a + 10) \<le> b) ms \<and>
        sorted_wrt (\<lambda>a b. snd (windowBounds (length lines) a) - 3
                          \<le> fst (windowBounds (length lines) b)) ms \<and>
        (ms = [] \<longleftrightarrow> \<not> (\<exists>j < length lines. sublist ql (lower (lines ! j)))) \<and>
        (\<forall>j < length lines. sublist ql (lower (lines ! j)) \<longrightarrow>
           j \<in> set ms \<or> (\<exists>m \<in> set ms. m < j \<and> j \<le> min (length lines) (m + 10))) \<and>
        ((\<forall>s. lower s = [] \<longleftrightarrow> s = []) \<longrightarrow>
           (filterContent lower pageText (Some q) = [] \<longleftrightarrow> pageText = [])))) \<and>
   filterContent lower pageText (Some []) = pageText \<and>
   filterContent lower pageText None = pageText"
proof -
  let ?lines = "split pageText"
  let ?ql = "lower q"
  let ?ms = "scanMatches lower ?lines ?ql 0"
  have valid: "\<forall>m \<in> set ?ms. m < length ?lines \<and> sublist ?ql (lower (?lines ! m))"
    using scanMatches_valid[of _ lower ?lines ?ql 0] by (auto simp: includesStr_sublist)
  have gaps: "sorted_wrt (\<lambda>a b. min (length ?lines) (a + 10) \<le> b) ?ms"
    by (rule sorted_wrt_mono_rel[OF _ scanMatches_gaps[of ?lines lower ?ql 0]]) simp
  have overlap: "sorted_wrt (\<lambda>a b. snd (windowBounds (length ?lines) a) - 3
                          \<le> fst (windowBounds (length ?lines) b)) ?ms"
    by (rule sorted_wrt_mono_rel[OF _ gaps]) (auto simp: windowBounds_def)
  have none: "?ms = [] \<longleftrightarrow> \<not> (\<exists>j < length ?lines. sublist ?ql (lower (?lines ! j)))"
    by (simp add: scanMatches_empty includesStr_sublist)
  have cover: "\<forall>j < length ?lines. sublist ?ql (lower (?lines ! j)) \<longrightarrow>
       j \<in> set ?ms \<or> (\<exists>m \<in> set ?ms. m < j \<and> j \<le> min (length ?lines) (m + 10))"
    using scanMatches_cover[where i = 0 and lines = ?lines and lower = lower and q = ?ql]
    by (simp add: includesStr_sublist)
  have main: "q \<noteq> [] \<longrightarrow>
     (let lines = split pageText; ql = lower q; ms = scanMatches lower lines ql 0 in
        filterContent lower pageText (Some q) =
          (if ms = [] then pageText else join [0x0A] (concat (map (window lines) ms))) \<and>
        (\<forall>m \<in> set ms. m < length lines \<and> sublist ql (lower (lines ! m))) \<and>
        sorted_wrt (\<lambda>a b. min (length lines) (a + 10) \<le> b) ms \<and>
        sorted_wrt (\<lambda>a b. snd (windowBounds (length lines) a) - 3
                          \<le> fst (windowBounds (length lines) b)) ms \<and>
        (ms = [] \<longleftrightarrow> \<not> (\<exists>j < length lines. sublist ql (lower (lines ! j)))) \<and>
        (\<forall>j < length lines. sublist ql (lower (lines ! j)) \<longrightarrow>
           j \<in> set ms \<or> (\<exists>m \<in> set ms. m < j \<and> j \<le> min (length lines) (m + 10))) \<and>
        ((\<forall>s. lower s = [] \<longleftrightarrow> s = []) \<longrightarrow>
           (filterContent lower pageText (Some q) = [] \<longleftrightarrow> pageText = [])))"
  proof
    assume q: "q \<noteq> []"
    have empty: "(\<forall>s. lower s = [] \<longleftrightarrow> s = []) \<longrightarrow>
        (filterContent lower pageText (Some q) = [] \<longleftrightarrow> pageText = [])"
      using filterContent_empty_iff[OF q, of lower pageText] by blast
    from filterContent_unfold[OF q, of lower pageText] valid gaps overlap none cover empty
    show "let lines = split pageText; ql = lower q; ms = scanMatches lower lines ql 0 in
        filterContent lower pageText (Some q) =
          (if ms = [] then pageText else join [0x0A] (concat (map (window lines) ms))) \<and>
        (\<forall>m \<in> set ms. m < length lines \<and> sublist ql (lower (lines ! m))) \<and>
        sorted_wrt (\<lambda>a b. min (length lines) (a + 10) \<le> b) ms \<and>
        sorted_wrt (\<lambda>a b. snd (windowBounds (length lines) a) - 3
                          \<le> fst (windowBounds (length lines) b)) ms \<and>
        (ms = [] \<longleftrightarrow> \<not> (\<exists>j < length lines. sublist ql (lower (lines ! j)))) \<and>
        (\<forall>j < length lines. sublist ql (lower (lines ! j)) \<longrightarrow>
           j \<in> set ms \<or> (\<exists>m \<in> set ms. m < j \<and> j \<le> min (length lines) (m + 10))) \<and>
        ((\<forall>s. lower s = [] \<longleftrightarrow> s = []) \<longrightarrow>
           (filterContent lower pageText (Some q) = [] \<longleftrightarrow> pageText = []))"
      unfolding Let_def by blast
  qed
  have falsy: "filterContent lower pageText (Some []) = pageText \<and>
      filterContent lower pageText None = pageText"
    by (simp add: filterContent_def)
  from main falsy show ?thesis by blast
qed

theorem filterContent_windows_witness:
  "str ''t'' \<noteq> [] \<and>
   scanMatches toLowerCase (split twelveLines) (toLowerCase (str ''t'')) 0 = [0, 11] \<and>
   filterContent toLowerCase twelveLines (Some (str ''t'')) =
     join [0x0A] (concat (map (window (split twelveLines)) [0, 11])) \<and>
   (\<forall>s. toLowerCase s = [] \<longleftrightarrow> s = []) \<and>
   filterContent toLowerCase twelveLines (Some (str ''t'')) \<noteq> [] \<and> twelveLines \<noteq> [] \<and>
   filterContent toLowerCase twelveLines (Some []) = twelveLines"
proof -
  have t: "str ''t'' \<noteq> []" by (simp add: str_def)
  have ms: "scanMatches toLowerCase (split twelveLines) (toLowerCase (str ''t'')) 0 = [0, 11]"
    by code_simp
  have ne: "twelveLines \<noteq> []" by (simp add: twelveLines_def str_def)
  have keeps: "\<forall>s. toLowerCase s = [] \<longleftrightarrow> s = []" by (simp add: toLowerCase_empty)
  note w = filterContent_windows[where q = "str ''t''" and lower = toLowerCase
      and pageText = twelveLines]
  from w t have "filterContent toLowerCase twelveLines (Some (str ''t'')) =
      (if scanMatches toLowerCase (split twelveLines) (toLowerCase (str ''t'')) 0 = []
       then twelveLines
       else join [0x0A] (concat (map (window (split twelveLines))
              (scanMatches toLowerCase (split twelveLines) (toLowerCase (str ''t'')) 0))))"
    unfolding Let_def by blast
  then have a: "filterContent toLowerCase twelveLines (Some (str ''t'')) =
     join [0x0A] (concat (map (window (split twelveLines)) [0, 11]))"
    unfolding ms by simp
  from w t keeps have
    "filterContent toLowerCase twelveLines (Some (str ''t'')) = [] \<longleftrightarrow> twelveLines = []"
    unfolding Let_def by blast
  with ne have b: "filterContent toLowerCase twelveLines (Some (str ''t'')) \<noteq> []" by simp
  from w have c: "filterContent toLowerCase twelveLines (Some []) = twelveLines" by blast
  from t ms a keeps b ne c show ?thesis by blast
qed

text \<open>
  C6. The content of a result is the fetched and filtered text when that has at most 5000
  characters, and otherwise its first 5000 characters followed by the fixed marker of 25
  characters.
\<close>

theorem searchLibraryDocs_truncates:
  "(snd (searchLibraryDocs lower sources web library topic) = Inr r \<longrightarrow>
      (\<exists>pageText. fetchUrl web (toStr (resolve lower sources library)) = Inr pageText \<and>
         result_content r =
           (if 5000 < length (filterContent lower pageText topic)
            then take 5000 (filterContent lower pageText topic) @
                 str ''\<newline>\<newline>... (content truncated)''
            else filterContent lower pageText topic))) \<and>
   (5000 < length s \<longrightarrow>
      limitLength s = take 5000 s @ str ''\<newline>\<newline>... (content truncated)'' \<and>
      length (limitLength s) = 5025) \<and>
   (length s \<le> 5000 \<longrightarrow> limitLength s = s)"
proof -
  have a: "snd (searchLibraryDocs lower sources web library topic) = Inr r \<longrightarrow>
      (\<exists>pageText. fetchUrl web (toStr (resolve lower sources library)) = Inr pageText \<and>
         result_content r = limitLength (filterContent lower pageText topic))"
    by (auto simp: searchLibraryDocs_def resolve_def Let_def split: if_splits sum.splits)
  have b: "5000 < length s \<longrightarrow>
      limitLength s = take 5000 s @ str ''\<newline>\<newline>... (content truncated)'' \<and>
      length (limitLength s) = 5025"
    by (simp add: limitLength_cases length_str)
  have c: "length s \<le> 5000 \<longrightarrow> limitLength s = s"
    by (simp add: limitLength_cases)
  from a b c show ?thesis unfolding limitLength_cases by blast
qed

theorem searchLibraryDocs_truncates_witness:
  "snd (searchLibraryDocs toLowerCase DOC_SOURCES bigPage (str ''React'') None) =
     Inr \<lparr>result_library = str ''React'', result_source = JString (str ''https://react.dev/learn''),
          result_content = replicate 5000 0x61 @ str ''\<newline>\<newline>... (content truncated)'',
          result_url = JString (str ''https://react.dev/learn'')\<rparr> \<and>
   5000 < length (replicate 6000 (0x61 :: codeUnit)) \<and>
   length (limitLength (replicate 6000 0x61)) = 5025 \<and>
   length (str ''short'') \<le> 5000 \<and> limitLength (str ''short'') = str ''short''"
proof -
  have g: "getProperty DOC_SOURCES (normalizeName toLowerCase (str ''React'')) =
      JString (str ''https://react.dev/learn'')" by code_simp
  have f: "filterContent toLowerCase (replicate 6000 0x61) None = replicate 6000 0x61"
    by (simp add: filterContent_def)
  have l: "limitLength (replicate 6000 0x61) =
      replicate 5000 0x61 @ str ''\<newline>\<newline>... (content truncated)''"
    by (simp add: limitLength_cases)
  have tr: "truthy (JString (str ''https://react.dev/learn''))" by (simp add: str_def)
  have run: "snd (searchLibraryDocs toLowerCase DOC_SOURCES bigPage (str ''React'') None) =
     Inr \<lparr>result_library = str ''React'', result_source = JString (str ''https://react.dev/learn''),
          result_content = replicate 5000 0x61 @ str ''\<newline>\<newline>... (content truncated)'',
          result_url = JString (str ''https://react.dev/learn'')\<rparr>"
    unfolding searchLibraryDocs_def Let_def g
    using tr by (simp add: fetchUrl_def bigPage_def f l)
  have big: "5000 < length (replicate 6000 (0x61 :: codeUnit))" by simp
  have small: "length (str ''short'') \<le> 5000" by (simp add: length_str)
  from searchLibraryDocs_truncates[of toLowerCase DOC_SOURCES bigPage "str ''React''" None _
         "replicate 6000 0x61"]
       searchLibraryDocs_truncates[of toLowerCase DOC_SOURCES bigPage "str ''React''" None _
         "str ''short''"]
       run big small
  show ?thesis by blast
qed

text \<open>
  C7 at the library name \<^verbatim>\<open>constructor\<close>. The name is its own normalized form and is
  not registered, yet the read of the registry gives the constructor inherited from
  \<^verbatim>\<open>Object.prototype\<close>, which is truthy: the failure with the four guessed URLs is skipped,
  \<^verbatim>\<open>fetch\<close> is called with the function, and the failure is that of the fetch. For every
  other unregistered name \<open>searchLibraryDocs_unknown\<close> above gives the failure with the four
  URLs and no call of \<^verbatim>\<open>fetch\<close>.
\<close>

theorem searchLibraryDocs_constructor:
  "normalizeName toLowerCase (str ''constructor'') = str ''constructor'' \<and>
   map_of DOC_SOURCES (normalizeName toLowerCase (str ''constructor'')) = None \<and>
   getProperty DOC_SOURCES (normalizeName toLowerCase (str ''constructor'')) =
     JInherited (str ''constructor'') \<and>
   searchLibraryDocs toLowerCase DOC_SOURCES offline (str ''constructor'') None =
     ([str ''function Object() { [native code] }''],
      Inl (Error (str ''Failed to fetch function Object() { [native code] }: fetch failed'')))"
  by code_simp

text \<open>
  C9. Two names with the same normalized form resolve alike; after \<open>addDocSource\<close> of a
  name, every name with the same normalized form resolves to the URL just registered; the
  fetch of \<open>searchLibraryDocs\<close> is of the resolved value; and with the initial registry
  \<^verbatim>\<open>LangGraph\<close>, \<^verbatim>\<open>lang-graph\<close> and \<^verbatim>\<open>langgraph\<close> resolve to the same URL.
\<close>

theorem resolve_normalization_insensitive:
  "(normalizeName lower a = normalizeName lower b \<longrightarrow>
      resolve lower sources a = resolve lower sources b) \<and>
   (normalizeName lower b = normalizeName lower a \<longrightarrow>
      resolve lower (addDocSource lower sources a u) b = JString u) \<and>
   fst (searchLibraryDocs lower sources web a topic) =
     (if truthy (resolve lower sources a) then [toStr (resolve lower sources a)] else []) \<and>
   resolve toLowerCase DOC_SOURCES (str ''LangGraph'') =
     JString (str ''https://langchain-ai.github.io/langgraph/'') \<and>
   resolve toLowerCase DOC_SOURCES (str ''lang-graph'') =
     JString (str ''https://langchain-ai.github.io/langgraph/'') \<and>
   resolve toLowerCase DOC_SOURCES (str ''langgraph'') =
     JString (str ''https://langchain-ai.github.io/langgraph/'')"
proof -
  have same: "normalizeName lower a = normalizeName lower b \<longrightarrow>
      resolve lower sources a = resolve lower sources b"
    by (simp add: resolve_def)
  have reg: "normalizeName lower b = normalizeName lower a \<longrightarrow>
      resolve lower (addDocSource lower sources a u) b = JString u"
    by (simp add: resolve_def addDocSource_def getProperty_update)
  have used: "fst (searchLibraryDocs lower sources web a topic) =
     (if truthy (resolve lower sources a) then [toStr (resolve lower sources a)] else [])"
    by (simp add: searchLibraryDocs_def resolve_def Let_def split: sum.splits)
  have l1: "resolve toLowerCase DOC_SOURCES (str ''LangGraph'') =
      JString (str ''https://langchain-ai.github.io/langgraph/'')"
    by code_simp
  have l2: "resolve toLowerCase DOC_SOURCES (str ''lang-graph'') =
      JString (str ''https://langchain-ai.github.io/langgraph/'')"
    by code_simp
  have l3: "resolve toLowerCase DOC_SOURCES (str ''langgraph'') =
      JString (str ''https://langchain-ai.github.io/langgraph/'')"
    by code_simp
  from same reg used l1 l2 l3 show ?thesis by blast
qed

theorem resolve_normalization_insensitive_witness:
  "normalizeName toLowerCase (str ''LangGraph'') = normalizeName toLowerCase (str ''lang-graph'') \<and>
   resolve toLowerCase DOC_SOURCES (str ''LangGraph'') =
     resolve toLowerCase DOC_SOURCES (str ''lang-graph'') \<and>
   normalizeName toLowerCase (str ''My_Lib 2'') = normalizeName toLowerCase (str ''mylib2'') \<and>
   resolve toLowerCase
     (addDocSource toLowerCase DOC_SOURCES (str ''mylib2'') (str ''https://mylib.example/docs''))
     (str ''My_Lib 2'') = JString (str ''https://mylib.example/docs'') \<and>
   resolve toLowerCase DOC_SOURCES (str ''My_Lib 2'') = JUndefined"
proof -
  have n1: "normalizeName toLowerCase (str ''LangGraph'') =
      normalizeName toLowerCase (str ''lang-graph'')" by code_simp
  have n2: "normalizeName toLowerCase (str ''My_Lib 2'') =
      normalizeName toLowerCase (str ''mylib2'')" by code_simp
  have u: "resolve toLowerCase DOC_SOURCES (str ''My_Lib 2'') = JUndefined" by code_simp
  from resolve_normalization_insensitive[of toLowerCase "str ''LangGraph''" "str ''lang-graph''"
          DOC_SOURCES]
       resolve_normalization_insensitive[of toLowerCase "str ''mylib2''" "str ''My_Lib 2''"
          DOC_SOURCES "str ''https://mylib.example/docs''"]
       n1 n2 u
  show ?thesis by blast
qed

end
